theory Spec2Isabelle
  imports Main "HOL-Library.AList"
begin

section \<open>Values, the local cache and the remote store\<close>

text \<open>
  The documents the lottery clients exchange are JSON-like. An object keeps its
  properties in insertion order, as a JavaScript object does.
\<close>

datatype json =
    JNull
  | JBool bool
  | JNum int
  | JStr string
  | JArr "json list"
  | JObj "(string \<times> json) list"

text \<open>JavaScript truthiness, as used by \<^verbatim>\<open>if (employees)\<close> and \<^verbatim>\<open>if (savedState)\<close>.\<close>

fun truthy :: "json \<Rightarrow> bool" where
  "truthy JNull = False"
| "truthy (JBool b) = b"
| "truthy (JNum n) = (n \<noteq> 0)"
| "truthy (JStr s) = (s \<noteq> [])"
| "truthy (JArr xs) = True"
| "truthy (JObj kvs) = True"

text \<open>
  \<^verbatim>\<open>localStorage\<close> holds strings. An item is either the text that
  \<^verbatim>\<open>JSON.stringify\<close> produced for a document (which \<^verbatim>\<open>JSON.parse\<close> reads back,
  and which is never the empty string), or some other text, written by another script of
  the page, on which \<^verbatim>\<open>JSON.parse\<close> throws a SyntaxError.
\<close>

datatype json_text = JSONText json | Malformed string

definition JSON_stringify :: "json \<Rightarrow> json_text" where
  "JSON_stringify v = JSONText v"

fun JSON_parse :: "json_text \<Rightarrow> string + json" where
  "JSON_parse (JSONText v) = Inr v"
| "JSON_parse (Malformed t) = Inl ''SyntaxError''"

text \<open>The truthiness of an item: only the empty string is falsy.\<close>

fun truthy_text :: "json_text \<Rightarrow> bool" where
  "truthy_text (JSONText v) = True"
| "truthy_text (Malformed t) = (t \<noteq> [])"

text \<open>
  The settled state of the promise an asynchronous call returns, and the outcome the
  network gives to one remote operation.
\<close>

datatype 'a promise = Resolved 'a | Rejected string

datatype net = NetOk | NetFail

text \<open>
  The remote store maps a path to its document; \<^verbatim>\<open>snapshot.val()\<close> is \<^verbatim>\<open>null\<close>
  where nothing is stored. Paths are flat string keys.
\<close>

type_synonym remote = "string \<Rightarrow> json"

definition db_set :: "net \<Rightarrow> string \<Rightarrow> json \<Rightarrow> remote \<Rightarrow> unit promise \<times> remote" where
  "db_set n path data r =
     (case n of
        NetOk \<Rightarrow> (Resolved (), r(path := data))
      | NetFail \<Rightarrow> (Rejected ''remote write failed'', r))"

definition db_once :: "net \<Rightarrow> string \<Rightarrow> remote \<Rightarrow> json promise" where
  "db_once n path r =
     (case n of
        NetOk \<Rightarrow> Resolved (r path)
      | NetFail \<Rightarrow> Rejected ''remote read failed'')"

section \<open>FirebaseCore\<close>

text \<open>
  Besides the two flags, the core record holds what the object works on: the items of
  \<^verbatim>\<open>localStorage\<close>, the browser's decision whether \<^verbatim>\<open>localStorage.setItem\<close>
  throws (a full quota, a disabled store) for the present items, a key and a text, and
  the remote store.
\<close>

record core =
  isConnected :: bool
  localMode :: bool
  localStorage :: "string \<rightharpoonup> json_text"
  setItem_throws :: "(string \<rightharpoonup> json_text) \<Rightarrow> string \<Rightarrow> json_text \<Rightarrow> bool"
  db :: remote

text \<open>The constructor leaves both flags false; a failed \<^verbatim>\<open>init\<close> sets \<^verbatim>\<open>localMode\<close>.\<close>

definition constructor ::
  "(string \<rightharpoonup> json_text) \<Rightarrow> ((string \<rightharpoonup> json_text) \<Rightarrow> string \<Rightarrow> json_text \<Rightarrow> bool)
     \<Rightarrow> remote \<Rightarrow> core" where
  "constructor ls q r =
     \<lparr>isConnected = False, localMode = False, localStorage = ls, setItem_throws = q, db = r\<rparr>"

definition init_failed :: "core \<Rightarrow> core" where
  "init_failed s = s\<lparr>localMode := True\<rparr>"

text \<open>\<^verbatim>\<open>`lottery_${path.replace(/\//g, '_')}`\<close>\<close>

definition replace_slash :: "string \<Rightarrow> string" where
  "replace_slash path = map (\<lambda>c. if c = CHR ''/'' then CHR ''_'' else c) path"

definition local_key :: "string \<Rightarrow> string" where
  "local_key path = ''lottery_'' @ replace_slash path"

text \<open>
  \<^verbatim>\<open>saveToLocal\<close> and \<^verbatim>\<open>loadFromLocal\<close>. When \<^verbatim>\<open>localStorage.setItem\<close> throws,
  the \<^verbatim>\<open>catch\<close> of \<^verbatim>\<open>saveToLocal\<close> swallows the error and nothing is stored.
  Reading returns \<^verbatim>\<open>null\<close> for a missing item, for an empty one, and, through the
  \<^verbatim>\<open>catch\<close>, for one that does not parse.
\<close>

definition saveToLocal :: "string \<Rightarrow> json \<Rightarrow> core \<Rightarrow> core" where
  "saveToLocal path data s =
     (let key = local_key path; text = JSON_stringify data in
      if setItem_throws s (localStorage s) key text then s
      else s\<lparr>localStorage := (localStorage s)(key \<mapsto> text)\<rparr>)"

definition loadFromLocal :: "string \<Rightarrow> core \<Rightarrow> json" where
  "loadFromLocal path s =
     (case localStorage s (local_key path) of
        None \<Rightarrow> JNull
      | Some t \<Rightarrow>
          if truthy_text t
          then (case JSON_parse t of Inr v \<Rightarrow> v | Inl err \<Rightarrow> JNull)
          else JNull)"

text \<open>
  \<^verbatim>\<open>setData\<close>: the local write comes first; the remote write is attempted only when
  connected and not in local mode. A rejected remote write is caught: the local write is
  repeated and the promise resolves to \<^verbatim>\<open>false\<close>.
\<close>

definition setData :: "net \<Rightarrow> string \<Rightarrow> json \<Rightarrow> core \<Rightarrow> bool promise \<times> core" where
  "setData n path data s =
     (let s1 = saveToLocal path data s in
      if isConnected s1 \<and> \<not> localMode s1 then
        (case db_set n path data (db s1) of
           (Resolved u, r) \<Rightarrow> (Resolved True, s1\<lparr>db := r\<rparr>)
         | (Rejected err, r) \<Rightarrow> (Resolved False, saveToLocal path data (s1\<lparr>db := r\<rparr>)))
      else (Resolved True, s1))"

text \<open>
  \<^verbatim>\<open>getData\<close>: when connected, a remote read that yields a non-null document refreshes
  the cache and is returned; a null document, a rejected read and the disconnected case
  all fall back to the cache.
\<close>

definition getData :: "net \<Rightarrow> string \<Rightarrow> core \<Rightarrow> json promise \<times> core" where
  "getData n path s =
     (if isConnected s \<and> \<not> localMode s then
        (case db_once n path (db s) of
           Resolved data \<Rightarrow>
             (if data \<noteq> JNull then (Resolved data, saveToLocal path data s)
              else (Resolved (loadFromLocal path s), s))
         | Rejected err \<Rightarrow> (Resolved (loadFromLocal path s), s))
      else (Resolved (loadFromLocal path s), s))"

text \<open>
  \<^verbatim>\<open>syncLocalToCloud\<close> pushes three fixed paths, in this order, each only when its
  cached document is truthy. The three pushes sit in one \<^verbatim>\<open>try\<close> block: the first
  rejected write ends the resync, and the error is only logged. \<open>push_local\<close> is one
  of the three load-and-set steps.
\<close>

definition push_local :: "net \<Rightarrow> string \<Rightarrow> core \<Rightarrow> unit promise \<times> core" where
  "push_local n path s =
     (let v = loadFromLocal path s in
      if truthy v then (case db_set n path v (db s) of (p, r) \<Rightarrow> (p, s\<lparr>db := r\<rparr>))
      else (Resolved (), s))"

definition syncLocalToCloud :: "net \<Rightarrow> net \<Rightarrow> net \<Rightarrow> core \<Rightarrow> unit promise \<times> core" where
  "syncLocalToCloud n1 n2 n3 s =
     (if \<not> isConnected s \<or> localMode s then (Resolved (), s)
      else
        (case push_local n1 ''employees'' s of
           (Rejected err, s1) \<Rightarrow> (Resolved (), s1)
         | (Resolved u1, s1) \<Rightarrow>
             (case push_local n2 ''prizes'' s1 of
                (Rejected err, s2) \<Rightarrow> (Resolved (), s2)
              | (Resolved u2, s2) \<Rightarrow>
                  (case push_local n3 ''lotteryState'' s2 of
                     (Rejected err, s3) \<Rightarrow> (Resolved (), s3)
                   | (Resolved u3, s3) \<Rightarrow> (Resolved (), s3)))))"

text \<open>
  The listener that \<^verbatim>\<open>setupConnectionMonitoring\<close> registers on
  \<^verbatim>\<open>.info/connected\<close>; \<open>v\<close> is \<^verbatim>\<open>snapshot.val() === true\<close>. The resync is started
  after \<^verbatim>\<open>localMode\<close> has been cleared, and is followed here to its end. The
  connection callbacks, which the listener calls last with the two flags, live outside
  the core.
\<close>

definition onConnectedValue :: "bool \<Rightarrow> net \<Rightarrow> net \<Rightarrow> net \<Rightarrow> core \<Rightarrow> core" where
  "onConnectedValue v n1 n2 n3 s =
     (let s1 = s\<lparr>isConnected := v\<rparr> in
      if \<not> isConnected s1 then s1\<lparr>localMode := True\<rparr>
      else snd (syncLocalToCloud n1 n2 n3 (s1\<lparr>localMode := False\<rparr>)))"

text \<open>
  The states a core can be in: built by the constructor (\<^verbatim>\<open>init\<close> may fail), then
  driven by connectivity signals, by its own reads and writes, and by other clients
  writing the shared remote store.
\<close>

inductive reachable :: "core \<Rightarrow> bool" where
  r_new: "reachable (constructor ls q r)"
| r_init_failed: "reachable (init_failed (constructor ls q r))"
| r_signal: "reachable s \<Longrightarrow> reachable (onConnectedValue v n1 n2 n3 s)"
| r_set: "reachable s \<Longrightarrow> reachable (snd (setData n p d s))"
| r_get: "reachable s \<Longrightarrow> reachable (snd (getData n p s))"
| r_remote: "reachable s \<Longrightarrow> reachable (s\<lparr>db := r\<rparr>)"

text \<open>The states in which at least one connectivity signal has been handled.\<close>

inductive signalled :: "core \<Rightarrow> bool" where
  s_signal: "reachable s \<Longrightarrow> signalled (onConnectedValue v n1 n2 n3 s)"
| s_set: "signalled s \<Longrightarrow> signalled (snd (setData n p d s))"
| s_get: "signalled s \<Longrightarrow> signalled (snd (getData n p s))"
| s_remote: "signalled s \<Longrightarrow> signalled (s\<lparr>db := r\<rparr>)"

section \<open>Events\<close>

record event =
  ev_type :: string
  ev_data :: json
  timestamp :: int
  ev_id :: string

definition event_json :: "event \<Rightarrow> json" where
  "event_json e =
     JObj [(''type'', JStr (ev_type e)), (''data'', ev_data e),
           (''timestamp'', JNum (timestamp e)), (''id'', JStr (ev_id e))]"

text \<open>Decimal rendering of a number inside a template literal.\<close>

fun digits :: "nat \<Rightarrow> string" where
  "digits n =
     (if n < 10 then [char_of (48 + n)]
      else digits (n div 10) @ [char_of (48 + n mod 10)])"

declare digits.simps [simp del]

definition show_int :: "int \<Rightarrow> string" where
  "show_int i = (if i < 0 then CHR ''-'' # digits (nat (- i)) else digits (nat i))"

text \<open>
  \<^verbatim>\<open>`event_${Date.now()}_${Math.random().toString(36).substr(2, 9)}`\<close>: the clock
  reading and the random suffix are inputs.
\<close>

definition generateEventId :: "int \<Rightarrow> string \<Rightarrow> string" where
  "generateEventId now rnd = ''event_'' @ show_int now @ ''_'' @ rnd"

definition sendEvent ::
  "int \<Rightarrow> int \<Rightarrow> string \<Rightarrow> net \<Rightarrow> string \<Rightarrow> json \<Rightarrow> core \<Rightarrow> bool promise \<times> core" where
  "sendEvent now now_id rnd n eventType eventData s =
     (let event = \<lparr>ev_type = eventType, ev_data = eventData, timestamp = now,
                    ev_id = generateEventId now_id rnd\<rparr>
      in setData n (''events/'' @ ev_id event) (event_json event) s)"

text \<open>
  The callback \<^verbatim>\<open>onEvent\<close> hands to \<^verbatim>\<open>onDataChange('events', ...)\<close>. Its argument is
  the events collection (\<^verbatim>\<open>null\<close> is \<open>None\<close>), an object from event ids to
  events. \<^verbatim>\<open>Array.prototype.sort\<close> is stable, as \<open>sort_key\<close> is; the comparator
  \<^verbatim>\<open>b.timestamp - a.timestamp\<close> orders by descending timestamp. The result is the event
  passed on to the subscriber, if any.
\<close>

definition Object_values :: "(string \<times> 'a) list \<Rightarrow> 'a list" where
  "Object_values obj = map snd obj"

definition latestEvent :: "event list \<Rightarrow> event option" where
  "latestEvent eventList =
     (case sort_key (\<lambda>e. - timestamp e) eventList of [] \<Rightarrow> None | e # es \<Rightarrow> Some e)"

definition onEvent_callback :: "int \<Rightarrow> (string \<times> event) list option \<Rightarrow> event option" where
  "onEvent_callback now events =
     (case events of
        None \<Rightarrow> None
      | Some obj \<Rightarrow>
          (case latestEvent (Object_values obj) of
             None \<Rightarrow> None
           | Some e \<Rightarrow> if now - timestamp e < 5000 then Some e else None))"

section \<open>LotteryEvents and LotteryStateManager\<close>

text \<open>
  A registered callback is foreign code: it acts on the part \<open>'w\<close> of the page it can
  reach and either returns (\<open>None\<close>) or throws (\<open>Some err\<close>), possibly after having
  had an effect.
\<close>

type_synonym 'w handler = "json \<Rightarrow> event \<Rightarrow> 'w \<Rightarrow> string option \<times> 'w"

type_synonym obj = "(string \<times> json) list"

type_synonym 'w stateCallback = "obj \<Rightarrow> obj \<Rightarrow> 'w \<Rightarrow> string option \<times> 'w"

record 'w client =
  firebaseCore :: core
  eventHandlers :: "string \<rightharpoonup> 'w handler list"
  lastEventId :: "string option"
  state :: obj
  stateCallbacks :: "'w stateCallback list"
  page :: 'w
  console_error :: "string list"

text \<open>
  \<^verbatim>\<open>Array.prototype.forEach\<close>: an exception thrown by the callback ends the loop and
  propagates. \<open>try_catch_log\<close> is the \<^verbatim>\<open>try { ... } catch (error) { console.error(...) }\<close>
  around one call.
\<close>

fun forEach :: "('a \<Rightarrow> 's \<Rightarrow> string option \<times> 's) \<Rightarrow> 'a list \<Rightarrow> 's \<Rightarrow> string option \<times> 's" where
  "forEach f [] s = (None, s)"
| "forEach f (x # xs) s =
     (case f x s of
        (Some err, s') \<Rightarrow> (Some err, s')
      | (None, s') \<Rightarrow> forEach f xs s')"

definition try_catch_log ::
  "('w \<Rightarrow> string option \<times> 'w) \<Rightarrow> 'w client \<Rightarrow> string option \<times> 'w client" where
  "try_catch_log call c =
     (case call (page c) of
        (None, w) \<Rightarrow> (None, c\<lparr>page := w\<rparr>)
      | (Some err, w) \<Rightarrow> (None, c\<lparr>page := w, console_error := console_error c @ [err]\<rparr>))"

definition on :: "string \<Rightarrow> 'w handler \<Rightarrow> 'w client \<Rightarrow> 'w client" where
  "on eventType handler c =
     (let hs = (case eventHandlers c eventType of None \<Rightarrow> [] | Some l \<Rightarrow> l)
      in c\<lparr>eventHandlers := (eventHandlers c)(eventType \<mapsto> hs @ [handler])\<rparr>)"

text \<open>
  \<^verbatim>\<open>handleIncomingEvent\<close>: an event whose id is the last handled id is skipped;
  otherwise the id is recorded and every handler of the event's type is called, each
  inside its own \<^verbatim>\<open>try\<close>. The first component is the exception that leaves the
  method, if any.
\<close>

definition handleIncomingEvent :: "event \<Rightarrow> 'w client \<Rightarrow> string option \<times> 'w client" where
  "handleIncomingEvent event c =
     (if Some (ev_id event) = lastEventId c then (None, c)
      else
        (let c1 = c\<lparr>lastEventId := Some (ev_id event)\<rparr> in
         case eventHandlers c1 (ev_type event) of
           None \<Rightarrow> (None, c1)
         | Some handlers \<Rightarrow>
             forEach (\<lambda>handler. try_catch_log (handler (ev_data event) event)) handlers c1))"

text \<open>
  One notification of the events subscription at time \<open>now\<close>: the callback of
  \<^verbatim>\<open>onEvent\<close> selects the event, \<^verbatim>\<open>startListening\<close> passes it to
  \<^verbatim>\<open>handleIncomingEvent\<close>. What \<^verbatim>\<open>onDataChange\<close> does around the callback (the
  cloud listener also copies the collection into the cache) is not part of it.
\<close>

definition notify ::
  "int \<Rightarrow> (string \<times> event) list option \<Rightarrow> 'w client \<Rightarrow> string option \<times> 'w client" where
  "notify now events c =
     (case onEvent_callback now events of
        None \<Rightarrow> (None, c)
      | Some e \<Rightarrow> handleIncomingEvent e c)"

text \<open>
  \<^verbatim>\<open>broadcastEvent\<close>: \<^verbatim>\<open>try { await sendEvent(...); return true } catch { return false }\<close>.
  The value \<^verbatim>\<open>sendEvent\<close> resolves to is not looked at.
\<close>

definition broadcastEvent ::
  "int \<Rightarrow> int \<Rightarrow> string \<Rightarrow> net \<Rightarrow> string \<Rightarrow> json \<Rightarrow> 'w client \<Rightarrow> bool promise \<times> 'w client" where
  "broadcastEvent now now_id rnd n eventType eventData c =
     (case sendEvent now now_id rnd n eventType eventData (firebaseCore c) of
        (Resolved sent, s) \<Rightarrow> (Resolved True, c\<lparr>firebaseCore := s\<rparr>)
      | (Rejected err, s) \<Rightarrow> (Resolved False, c\<lparr>firebaseCore := s\<rparr>))"

text \<open>\<^verbatim>\<open>LotteryEvents.updateState\<close>: broadcast a STATE_CHANGED event carrying the state.\<close>

definition events_updateState ::
  "int \<Rightarrow> int \<Rightarrow> int \<Rightarrow> string \<Rightarrow> net \<Rightarrow> obj \<Rightarrow> 'w client \<Rightarrow> bool promise \<times> 'w client" where
  "events_updateState now_data now now_id rnd n newState c =
     broadcastEvent now now_id rnd n ''STATE_CHANGED''
       (JObj [(''state'', JObj newState), (''timestamp'', JNum now_data)]) c"

text \<open>
  The object spread \<^verbatim>\<open>{ ...a, ...b }\<close>: the properties of \<open>a\<close>, then each property
  of \<open>b\<close> assigned in turn.
\<close>

definition spread :: "obj \<Rightarrow> obj \<Rightarrow> obj" where
  "spread a b = foldl (\<lambda>acc kv. AList.update (fst kv) (snd kv) acc) a b"

definition get_prop :: "obj \<Rightarrow> string \<Rightarrow> json option" where
  "get_prop ob k = map_of ob k"

definition triggerStateCallbacks :: "obj \<Rightarrow> obj \<Rightarrow> 'w client \<Rightarrow> string option \<times> 'w client" where
  "triggerStateCallbacks newState oldState c =
     forEach (\<lambda>callback. try_catch_log (callback newState oldState)) (stateCallbacks c) c"

text \<open>
  \<^verbatim>\<open>LotteryStateManager.updateState(newState, broadcast)\<close>: merge, persist under
  \<^verbatim>\<open>lotteryState\<close>, broadcast the merged state when asked to (the broadcast is not
  awaited), call the state callbacks. \<open>n_set\<close> and \<open>n_ev\<close> are the network outcomes
  of the two remote writes.
\<close>

definition updateState ::
  "int \<Rightarrow> int \<Rightarrow> int \<Rightarrow> string \<Rightarrow> net \<Rightarrow> net \<Rightarrow> obj \<Rightarrow> bool \<Rightarrow> 'w client
     \<Rightarrow> unit promise \<times> 'w client" where
  "updateState now_data now now_id rnd n_set n_ev newState broadcast c =
     (let oldState = state c;
          c1 = c\<lparr>state := spread (state c) newState\<rparr>
      in case setData n_set ''lotteryState'' (JObj (state c1)) (firebaseCore c1) of
           (Rejected err, s) \<Rightarrow> (Rejected err, c1\<lparr>firebaseCore := s\<rparr>)
         | (Resolved saved, s) \<Rightarrow>
             (let c2 = c1\<lparr>firebaseCore := s\<rparr>;
                  c3 = (if broadcast
                        then snd (events_updateState now_data now now_id rnd n_ev (state c2) c2)
                        else c2)
              in case triggerStateCallbacks (state c3) oldState c3 of
                   (Some err, c4) \<Rightarrow> (Rejected err, c4)
                 | (None, c4) \<Rightarrow> (Resolved (), c4)))"

section \<open>Runs of the events subscription\<close>

text \<open>
  A run delivers a list of notifications, each a clock reading with the collection
  delivered at that moment, to one client.
\<close>

type_synonym notification = "int \<times> (string \<times> event) list option"

definition run :: "notification list \<Rightarrow> 'w client \<Rightarrow> 'w client" where
  "run ns c = foldl (\<lambda>c n. snd (notify (fst n) (snd n) c)) c ns"

text \<open>The events the callback of \<^verbatim>\<open>onEvent\<close> lets through during a run, in order.\<close>

definition selected :: "notification list \<Rightarrow> event list" where
  "selected ns = List.map_filter (\<lambda>n. onEvent_callback (fst n) (snd n)) ns"

text \<open>
  What a single remembered id filters out of a list of events: an event is dropped when
  its id is the remembered one, and kept and remembered otherwise.
\<close>

fun dedup :: "string option \<Rightarrow> event list \<Rightarrow> event list" where
  "dedup lastId [] = []"
| "dedup lastId (e # es) =
     (if Some (ev_id e) = lastId then dedup lastId es else e # dedup (Some (ev_id e)) es)"

text \<open>
  The effect on the page of calling every handler registered for the type of \<open>e\<close>
  once with \<open>e\<close>, in registration order, whether or not a handler throws; and the
  same for one call together with the error log.
\<close>

definition call_all :: "'w client \<Rightarrow> 'w \<Rightarrow> event \<Rightarrow> 'w" where
  "call_all c w e =
     foldl (\<lambda>w h. snd (h (ev_data e) e w)) w
       (case eventHandlers c (ev_type e) of None \<Rightarrow> [] | Some hs \<Rightarrow> hs)"

definition log_call :: "('w \<Rightarrow> string option \<times> 'w) \<Rightarrow> 'w \<times> string list \<Rightarrow> 'w \<times> string list" where
  "log_call call wl =
     (case call (fst wl) of
        (None, w) \<Rightarrow> (w, snd wl)
      | (Some err, w) \<Rightarrow> (w, snd wl @ [err]))"

text \<open>
  What may happen to a core between two calls while its connectivity stays as it is: a
  \<^verbatim>\<open>setData\<close>, a \<^verbatim>\<open>getData\<close>, or another client changing the remote store.
  An action spares the path \<open>p\<close> when it is no write to \<open>p\<close>: a
  \<^verbatim>\<open>setData\<close> on a path with another cache key, a \<^verbatim>\<open>getData\<close> of \<open>p\<close> itself or
  of a path with another cache key (a \<^verbatim>\<open>getData\<close> refreshes the cache entry of its
  path), a remote change that leaves the remote document at \<open>p\<close> alone.
\<close>

datatype action = Write net string json | Read net string | Remote_change remote

fun act :: "action \<Rightarrow> core \<Rightarrow> core" where
  "act (Write n q d) s = snd (setData n q d s)"
| "act (Read n q) s = snd (getData n q s)"
| "act (Remote_change r) s = s\<lparr>db := r\<rparr>"

fun perform :: "action list \<Rightarrow> core \<Rightarrow> core" where
  "perform [] s = s"
| "perform (a # acts) s = perform acts (act a s)"




section \<open>Concrete clients and events\<close>

definition empty_remote :: remote where
  "empty_remote p = JNull"

text \<open>A browser whose store always accepts a write, and one whose store is full.\<close>

definition never_throws :: "(string \<rightharpoonup> json_text) \<Rightarrow> string \<Rightarrow> json_text \<Rightarrow> bool" where
  "never_throws ls k t = False"

definition always_throws :: "(string \<rightharpoonup> json_text) \<Rightarrow> string \<Rightarrow> json_text \<Rightarrow> bool" where
  "always_throws ls k t = True"

definition ex_new :: core where
  "ex_new = constructor Map.empty never_throws empty_remote"

definition ex_offline :: core where
  "ex_offline = \<lparr>isConnected = False, localMode = True, localStorage = Map.empty,
                  setItem_throws = never_throws,
                  db = empty_remote\<rparr>"

definition ex_online :: core where
  "ex_online = \<lparr>isConnected = True, localMode = False, localStorage = Map.empty,
                 setItem_throws = never_throws,
                 db = empty_remote(''prizes'' := JStr ''old'')\<rparr>"

definition ev_a :: event where
  "ev_a = \<lparr>ev_type = ''START_LOTTERY'', ev_data = JNull, timestamp = 1000, ev_id = ''a''\<rparr>"

definition ev_b :: event where
  "ev_b = \<lparr>ev_type = ''START_LOTTERY'', ev_data = JNull, timestamp = 2000, ev_id = ''b''\<rparr>"

text \<open>A handler that notes the id of the event it is called with, and one that throws.\<close>

definition record_id :: "string list handler" where
  "record_id data e w = (None, w @ [ev_id e])"

definition throw_after_record :: "string list handler" where
  "throw_after_record data e w = (Some ''boom'', w @ [''thrower''])"

definition default_state :: obj where
  "default_state =
     [(''status'', JStr ''waiting''), (''currentPrize'', JNull), (''currentWinner'', JNull),
      (''winners'', JArr []), (''availableEmployees'', JArr []), (''completedPrizes'', JArr [])]"

definition ex_client :: "string list client" where
  "ex_client =
     \<lparr>firebaseCore = ex_online,
      eventHandlers = [''START_LOTTERY'' \<mapsto> [record_id, throw_after_record, record_id]],
      lastEventId = None, state = default_state, stateCallbacks = [], page = [],
      console_error = []\<rparr>"

definition ex_subscriber :: "string list client" where
  "ex_subscriber =
     \<lparr>firebaseCore = ex_online, eventHandlers = [''START_LOTTERY'' \<mapsto> [record_id]],
      lastEventId = None, state = default_state, stateCallbacks = [], page = [],
      console_error = []\<rparr>"

definition ex_redelivery :: "notification list" where
  "ex_redelivery =
     [(1500, Some [(''a'', ev_a)]), (1600, Some [(''a'', ev_a)]),
      (2500, Some [(''a'', ev_a), (''b'', ev_b)])]"

definition ex_recurrence :: "notification list" where
  "ex_recurrence =
     [(1500, Some [(''a'', ev_a)]), (2500, Some [(''a'', ev_a), (''b'', ev_b)]),
      (2600, Some [(''a'', ev_a)])]"




definition ex_offline_edit :: core where
  "ex_offline_edit =
     snd (setData NetOk ''employees'' (JArr [JStr ''Ann''])
            (onConnectedValue False NetOk NetOk NetOk ex_new))"

definition ex_cached_winners :: core where
  "ex_cached_winners = saveToLocal ''winners'' (JArr [JStr ''Ann'']) ex_online"

section \<open>The cache and the flags\<close>

lemma never_throws_False [simp]: "never_throws ls k t = False"
  by (simp add: never_throws_def)

lemma always_throws_True [simp]: "always_throws ls k t = True"
  by (simp add: always_throws_def)

lemma saveToLocal_fields [simp]:
  "isConnected (saveToLocal p v s) = isConnected s"
  "localMode (saveToLocal p v s) = localMode s"
  "db (saveToLocal p v s) = db s"
  "setItem_throws (saveToLocal p v s) = setItem_throws s"
  by (simp_all add: saveToLocal_def Let_def)

lemma saveToLocal_lands:
  "\<not> setItem_throws s (localStorage s) (local_key p) (JSON_stringify v) \<Longrightarrow>
   localStorage (saveToLocal p v s) = (localStorage s)(local_key p \<mapsto> JSON_stringify v)"
  by (simp add: saveToLocal_def Let_def)


lemma saveToLocal_db_update:
  "saveToLocal p v (s\<lparr>db := r\<rparr>) = (saveToLocal p v s)\<lparr>db := r\<rparr>"
  by (simp add: saveToLocal_def Let_def)

lemma loadFromLocal_field_updates [simp]:
  "loadFromLocal p (s\<lparr>db := r\<rparr>) = loadFromLocal p s"
  "loadFromLocal p (s\<lparr>isConnected := a\<rparr>) = loadFromLocal p s"
  "loadFromLocal p (s\<lparr>localMode := b\<rparr>) = loadFromLocal p s"
  by (simp_all add: loadFromLocal_def)

lemma loadFromLocal_saveToLocal_key:
  "local_key q = local_key p \<Longrightarrow>
   \<not> setItem_throws s (localStorage s) (local_key p) (JSON_stringify v) \<Longrightarrow>
   loadFromLocal q (saveToLocal p v s) = v"
  by (simp add: loadFromLocal_def saveToLocal_lands) (simp add: JSON_stringify_def)



lemma setData_flags [simp]:
  "isConnected (snd (setData n p d s)) = isConnected s"
  "localMode (snd (setData n p d s)) = localMode s"
  by (cases n; simp add: setData_def db_set_def Let_def)+

lemma getData_flags [simp]:
  "isConnected (snd (getData n p s)) = isConnected s"
  "localMode (snd (getData n p s)) = localMode s"
  by (cases n; simp add: getData_def db_once_def)+

lemma setData_resolves: "\<exists>b. fst (setData n p d s) = Resolved b"
  by (cases n) (auto simp: setData_def db_set_def Let_def)

lemma getData_resolves: "\<exists>v. fst (getData n p s) = Resolved v"
  by (cases n) (auto simp: getData_def db_once_def)

section \<open>Calls that spare a path\<close>



lemma getData_db [simp]: "db (snd (getData n q s)) = db s"
  by (cases n) (simp_all add: getData_def db_once_def)





lemma act_flags [simp]:
  "isConnected (act a s) = isConnected s"
  "localMode (act a s) = localMode s"
  by (cases a; simp)+


lemma perform_flags [simp]:
  "isConnected (perform acts s) = isConnected s"
  "localMode (perform acts s) = localMode s"
  by (induction acts arbitrary: s) simp_all


section \<open>Connectivity and resync\<close>

lemma push_local_ok:
  "push_local NetOk q s =
     (Resolved (),
      if truthy (loadFromLocal q s) then s\<lparr>db := (db s)(q := loadFromLocal q s)\<rparr> else s)"
  by (simp add: push_local_def db_set_def Let_def)

lemma onConnectedValue_flags:
  "isConnected (onConnectedValue v n1 n2 n3 s) = v"
  "localMode (onConnectedValue v n1 n2 n3 s) = (\<not> v)"
  by (cases n1; cases n2; cases n3;
      simp add: onConnectedValue_def syncLocalToCloud_def push_local_def db_set_def Let_def)+



lemma signalled_flags: "signalled s \<Longrightarrow> localMode s = (\<not> isConnected s)"
  by (induction rule: signalled.induct) (simp_all add: onConnectedValue_flags)

lemma reachable_flags: "reachable s \<Longrightarrow> isConnected s \<longrightarrow> \<not> localMode s"
  by (induction rule: reachable.induct)
     (simp_all add: onConnectedValue_flags constructor_def init_failed_def)

section \<open>Calling handlers\<close>

lemma try_catch_log_fields [simp]:
  "firebaseCore (snd (try_catch_log call c)) = firebaseCore c"
  "eventHandlers (snd (try_catch_log call c)) = eventHandlers c"
  "lastEventId (snd (try_catch_log call c)) = lastEventId c"
  "state (snd (try_catch_log call c)) = state c"
  "stateCallbacks (snd (try_catch_log call c)) = stateCallbacks c"
  "page (snd (try_catch_log call c)) = snd (call (page c))"
  "fst (try_catch_log call c) = None"
  by (auto simp: try_catch_log_def split: prod.splits option.splits)

lemma forEach_try_cons:
  "forEach (\<lambda>h. try_catch_log (f h)) (h # hs) c =
     forEach (\<lambda>h. try_catch_log (f h)) hs (snd (try_catch_log (f h) c))"
  by (cases "try_catch_log (f h) c") (auto simp: try_catch_log_def split: prod.splits option.splits)

lemma forEach_try_fst: "fst (forEach (\<lambda>h. try_catch_log (f h)) hs c) = None"
  by (induction hs arbitrary: c) (simp_all add: forEach_try_cons del: forEach.simps(2))

lemma forEach_try_fields:
  "firebaseCore (snd (forEach (\<lambda>h. try_catch_log (f h)) hs c)) = firebaseCore c"
  "eventHandlers (snd (forEach (\<lambda>h. try_catch_log (f h)) hs c)) = eventHandlers c"
  "lastEventId (snd (forEach (\<lambda>h. try_catch_log (f h)) hs c)) = lastEventId c"
  "state (snd (forEach (\<lambda>h. try_catch_log (f h)) hs c)) = state c"
  "stateCallbacks (snd (forEach (\<lambda>h. try_catch_log (f h)) hs c)) = stateCallbacks c"
  by (induction hs arbitrary: c) (simp_all add: forEach_try_cons del: forEach.simps(2))

lemma forEach_try_page:
  "page (snd (forEach (\<lambda>h. try_catch_log (f h)) hs c)) = foldl (\<lambda>w h. snd (f h w)) (page c) hs"
  by (induction hs arbitrary: c) (simp_all add: forEach_try_cons del: forEach.simps(2))

lemma forEach_try_console:
  "(page (snd (forEach (\<lambda>h. try_catch_log (f h)) hs c)),
    console_error (snd (forEach (\<lambda>h. try_catch_log (f h)) hs c)))
   = foldl (\<lambda>wl h. log_call (f h) wl) (page c, console_error c) hs"
proof (induction hs arbitrary: c)
  case Nil
  show ?case by simp
next
  case (Cons h hs)
  have "(page (snd (try_catch_log (f h) c)), console_error (snd (try_catch_log (f h) c)))
        = log_call (f h) (page c, console_error c)"
    by (auto simp: try_catch_log_def log_call_def split: prod.splits option.splits)
  then show ?case
    by (simp add: forEach_try_cons Cons.IH del: forEach.simps(2))
qed

lemma handleIncomingEvent_never_throws: "fst (handleIncomingEvent e c) = None"
  by (simp add: handleIncomingEvent_def Let_def forEach_try_fst split: option.splits)

lemma handleIncomingEvent_page:
  "page (snd (handleIncomingEvent e c)) =
     (if Some (ev_id e) = lastEventId c then page c else call_all c (page c) e)"
  by (simp add: handleIncomingEvent_def Let_def call_all_def forEach_try_page split: option.splits)

lemma handleIncomingEvent_last:
  "lastEventId (snd (handleIncomingEvent e c)) = Some (ev_id e)"
  by (auto simp add: handleIncomingEvent_def Let_def forEach_try_fields split: option.splits)

lemma handleIncomingEvent_handlers:
  "eventHandlers (snd (handleIncomingEvent e c)) = eventHandlers c"
  by (simp add: handleIncomingEvent_def Let_def forEach_try_fields split: option.splits)

lemma call_all_cong: "eventHandlers c' = eventHandlers c \<Longrightarrow> call_all c' = call_all c"
  by (simp add: call_all_def fun_eq_iff)

section \<open>The events subscription\<close>

lemma latestEvent_Some:
  assumes "latestEvent es = Some e"
  shows "e \<in> set es \<and> (\<forall>x \<in> set es. timestamp x \<le> timestamp e)"
proof -
  from assms obtain rest where srt: "sort_key (\<lambda>e. - timestamp e) es = e # rest"
    by (auto simp: latestEvent_def split: list.splits)
  have "set (sort_key (\<lambda>e. - timestamp e) es) = set es" by simp
  with srt have mem: "e \<in> set es" and sub: "set es = insert e (set rest)" by auto
  have "sorted (map (\<lambda>e. - timestamp e) (sort_key (\<lambda>e. - timestamp e) es))"
    by (rule sorted_sort_key)
  with srt have "\<forall>x \<in> set rest. - timestamp e \<le> - timestamp x" by simp
  with sub mem show ?thesis by auto
qed

lemma onEvent_callback_Some:
  "onEvent_callback now events = Some e \<Longrightarrow>
     (\<exists>obj. events = Some obj \<and> latestEvent (Object_values obj) = Some e) \<and>
     now - timestamp e < 5000"
  by (auto simp: onEvent_callback_def split: option.splits if_splits)

lemma latestEvent_nonempty: "es \<noteq> [] \<Longrightarrow> \<exists>e. latestEvent es = Some e"
proof -
  assume "es \<noteq> []"
  then have "length (sort_key (\<lambda>e. - timestamp e) es) \<noteq> 0" by simp
  then have "sort_key (\<lambda>e. - timestamp e) es \<noteq> []" by (simp only: length_0_conv) simp
  then show ?thesis by (auto simp: latestEvent_def split: list.splits)
qed

lemma onEvent_callback_max:
  "onEvent_callback now events = Some e \<Longrightarrow>
     (\<exists>obj. events = Some obj \<and> e \<in> set (Object_values obj) \<and>
            (\<forall>x \<in> set (Object_values obj). timestamp x \<le> timestamp e)) \<and>
     now - timestamp e < 5000"
proof -
  assume a: "onEvent_callback now events = Some e"
  from onEvent_callback_Some [OF a] obtain obj where
    o: "events = Some obj" "latestEvent (Object_values obj) = Some e" by blast
  from latestEvent_Some [OF o(2)] o(1) onEvent_callback_Some [OF a]
  show ?thesis by blast
qed

lemma onEvent_callback_nonempty:
  assumes "events = Some obj" "Object_values obj \<noteq> []"
  shows "\<exists>m \<in> set (Object_values obj).
           (\<forall>x \<in> set (Object_values obj). timestamp x \<le> timestamp m) \<and>
           onEvent_callback now events = (if now - timestamp m < 5000 then Some m else None)"
proof -
  from latestEvent_nonempty [OF assms(2)] obtain m where
    m: "latestEvent (Object_values obj) = Some m" by blast
  from latestEvent_Some [OF m] have
    "m \<in> set (Object_values obj) \<and> (\<forall>x \<in> set (Object_values obj). timestamp x \<le> timestamp m)" .
  moreover from m assms(1) have
    "onEvent_callback now events = (if now - timestamp m < 5000 then Some m else None)"
    by (simp add: onEvent_callback_def)
  ultimately show ?thesis by blast
qed

lemma notify_page:
  "page (snd (notify now events c)) =
     (case onEvent_callback now events of
        None \<Rightarrow> page c
      | Some e \<Rightarrow> if Some (ev_id e) = lastEventId c then page c else call_all c (page c) e)"
  by (simp add: notify_def handleIncomingEvent_page split: option.splits)

lemma notify_last:
  "lastEventId (snd (notify now events c)) =
     (case onEvent_callback now events of None \<Rightarrow> lastEventId c | Some e \<Rightarrow> Some (ev_id e))"
  by (simp add: notify_def handleIncomingEvent_last split: option.splits)

lemma selected_Cons:
  "selected (n # ns) =
     (case onEvent_callback (fst n) (snd n) of None \<Rightarrow> selected ns | Some e \<Rightarrow> e # selected ns)"
  by (simp add: selected_def split: option.splits)

lemma run_Cons: "run (n # ns) c = run ns (snd (notify (fst n) (snd n) c))"
  by (simp add: run_def)

lemma run_page:
  "page (run ns c) = foldl (call_all c) (page c) (dedup (lastEventId c) (selected ns)) \<and>
   eventHandlers (run ns c) = eventHandlers c"
proof (induction ns arbitrary: c)
  case Nil
  show ?case by (simp add: run_def selected_def)
next
  case (Cons n ns)
  show ?case
  proof (cases "onEvent_callback (fst n) (snd n)")
    case None
    then show ?thesis using Cons.IH [of c]
      by (simp add: run_Cons selected_Cons notify_def)
  next
    case (Some e)
    let ?c1 = "snd (handleIncomingEvent e c)"
    have h: "eventHandlers ?c1 = eventHandlers c" by (rule handleIncomingEvent_handlers)
    have ca: "call_all ?c1 = call_all c" by (rule call_all_cong [OF h])
    show ?thesis using Cons.IH [of ?c1] Some
      by (simp add: run_Cons selected_Cons notify_def h ca handleIncomingEvent_page
            handleIncomingEvent_last)
  qed
qed

lemma dedup_ids_last:
  "map ev_id (dedup (Some i) es) = tl (remdups_adj (i # map ev_id es))"
  by (induction es arbitrary: i) auto

lemma dedup_ids: "map ev_id (dedup None es) = remdups_adj (map ev_id es)"
  by (cases es) (simp_all add: dedup_ids_last)

lemma selected_from:
  "e \<in> set (selected ns) \<Longrightarrow> \<exists>n \<in> set ns. onEvent_callback (fst n) (snd n) = Some e"
proof (induction ns)
  case Nil
  then show ?case by (simp add: selected_def)
next
  case (Cons n ns)
  then show ?case by (auto simp: selected_Cons split: option.splits)
qed

lemma selected_newest_and_fresh:
  assumes "e \<in> set (selected ns)"
  shows "\<exists>n \<in> set ns. \<exists>obj. snd n = Some obj \<and> e \<in> set (Object_values obj) \<and>
           (\<forall>x \<in> set (Object_values obj). timestamp x \<le> timestamp e) \<and>
           onEvent_callback (fst n) (snd n) = Some e \<and> fst n - timestamp e < 5000"
proof -
  from selected_from [OF assms] obtain n where
    n: "n \<in> set ns" "onEvent_callback (fst n) (snd n) = Some e" by blast
  from onEvent_callback_max [OF n(2)] n show ?thesis by blast
qed

section \<open>Broadcasting and the state merge\<close>

lemma sendEvent_resolves: "\<exists>b. fst (sendEvent now now_id rnd n t d s) = Resolved b"
  by (simp add: sendEvent_def Let_def setData_resolves)

lemma broadcastEvent_fields:
  "state (snd (broadcastEvent now now_id rnd n t d c)) = state c"
  "stateCallbacks (snd (broadcastEvent now now_id rnd n t d c)) = stateCallbacks c"
  by (simp_all add: broadcastEvent_def split: prod.splits promise.splits)

lemma triggerStateCallbacks_state:
  "state (snd (triggerStateCallbacks a b c)) = state c"
  by (simp add: triggerStateCallbacks_def forEach_try_fields)

lemma map_of_spread: "map_of (spread a b) = map_of a ++ map_of (rev b)"
proof (induction b arbitrary: a)
  case Nil
  show ?case by (simp add: spread_def)
next
  case (Cons kv b)
  have "spread a (kv # b) = spread (AList.update (fst kv) (snd kv) a) b"
    by (simp add: spread_def)
  then have "map_of (spread a (kv # b)) = (map_of a)(fst kv \<mapsto> snd kv) ++ map_of (rev b)"
    by (simp only: Cons.IH update_conv')
  also have "\<dots> = map_of a ++ map_of (rev (kv # b))"
    by (rule ext) (simp add: map_add_def split: option.splits)
  finally show ?case .
qed

lemma spread_present:
  assumes "distinct (map fst b)" "(k, v) \<in> set b"
  shows "get_prop (spread a b) k = Some v"
proof -
  from assms(1) have "distinct (map fst (rev b))" by (simp add: rev_map [symmetric])
  moreover from assms(2) have "(k, v) \<in> set (rev b)" by simp
  ultimately have "map_of (rev b) k = Some v" by (rule map_of_is_SomeI)
  then show ?thesis by (simp add: get_prop_def map_of_spread)
qed

lemma spread_absent:
  assumes "k \<notin> fst ` set b"
  shows "get_prop (spread a b) k = get_prop a k"
proof -
  from assms have "map_of (rev b) k = None" by (simp add: map_of_eq_None_iff)
  then show ?thesis by (simp add: get_prop_def map_of_spread map_add_def)
qed

lemma updateState_state:
  "state (snd (updateState now_data now now_id rnd n_set n_ev newState broadcast c))
     = spread (state c) newState"
proof -
  let ?c1 = "c\<lparr>state := spread (state c) newState\<rparr>"
  obtain r s where rs: "setData n_set ''lotteryState'' (JObj (state ?c1)) (firebaseCore ?c1) = (r, s)"
    by (cases "setData n_set ''lotteryState'' (JObj (state ?c1)) (firebaseCore ?c1)")
  show ?thesis
  proof (cases r)
    case (Rejected err)
    with rs show ?thesis by (simp add: updateState_def Let_def)
  next
    case (Resolved saved)
    let ?c2 = "?c1\<lparr>firebaseCore := s\<rparr>"
    let ?c3 = "if broadcast
               then snd (events_updateState now_data now now_id rnd n_ev (state ?c2) ?c2)
               else ?c2"
    have s3: "state ?c3 = spread (state c) newState"
      by (simp add: events_updateState_def broadcastEvent_fields)
    obtain x c4 where t: "triggerStateCallbacks (state ?c3) (state c) ?c3 = (x, c4)"
      by (cases "triggerStateCallbacks (state ?c3) (state c) ?c3")
    then have "state c4 = state ?c3"
      using triggerStateCallbacks_state [of "state ?c3" "state c" ?c3] by simp
    with s3 have s4: "state c4 = spread (state c) newState" by simp
    have "snd (updateState now_data now now_id rnd n_set n_ev newState broadcast c) = c4"
      using rs Resolved t by (cases x) (simp_all add: updateState_def Let_def)
    with s4 show ?thesis by simp
  qed
qed

lemma generateEventId_example:
  "generateEventId 1001 ''k3j9x0abc'' = ''event_1001_k3j9x0abc''"
  by code_simp

lemma on_appends:
  "eventHandlers (on t h c) t =
     Some ((case eventHandlers c t of None \<Rightarrow> [] | Some l \<Rightarrow> l) @ [h])"
  by (simp add: on_def Let_def)

section \<open>Read after write (C1)\<close>




section \<open>The state merge (C2)\<close>

text \<open>
  Claim C2. \<^verbatim>\<open>updateState(partial)\<close> merges: every property of \<open>partial\<close> (an
  object, so its keys are distinct) is in the new state with the value \<open>partial\<close>
  gives it, and every key that \<open>partial\<close> lacks keeps what it had. In particular,
  from any state, \<^verbatim>\<open>updateState({status:'rolling', currentPrize:P})\<close> followed by
  \<^verbatim>\<open>updateState({currentWinner:W})\<close> leaves status \<^verbatim>\<open>'rolling'\<close>, currentPrize \<open>P\<close>
  and currentWinner \<open>W\<close>. This holds for every outcome of the remote writes and
  with or without broadcast.
\<close>

theorem updateState_merges:
  "(distinct (map fst partial) \<longrightarrow>
      (\<forall>(k, v) \<in> set partial.
          get_prop (state (snd (updateState now_data now now_id rnd n_set n_ev partial broadcast c))) k
            = Some v)) \<and>
   (\<forall>k. k \<notin> fst ` set partial \<longrightarrow>
      get_prop (state (snd (updateState now_data now now_id rnd n_set n_ev partial broadcast c))) k
        = get_prop (state c) k) \<and>
   (let c1 = snd (updateState now_data now now_id rnd n_set n_ev
                    [(''status'', JStr ''rolling''), (''currentPrize'', P)] broadcast c);
        c2 = snd (updateState now_data' now' now_id' rnd' n_set' n_ev'
                    [(''currentWinner'', W)] broadcast' c1)
    in get_prop (state c2) ''status'' = Some (JStr ''rolling'') \<and>
       get_prop (state c2) ''currentPrize'' = Some P \<and>
       get_prop (state c2) ''currentWinner'' = Some W)"
  by (auto simp: updateState_state spread_present spread_absent Let_def)

theorem updateState_merges_witness:
  "distinct (map fst [(''status'', JStr ''rolling''), (''currentPrize'', JStr ''p1'')]) \<and>
   ''winners'' \<notin> fst ` set [(''status'', JStr ''rolling''), (''currentPrize'', JStr ''p1'')] \<and>
   get_prop (state (snd (updateState 10 10 10 ''r4nd0m'' NetOk NetFail
       [(''status'', JStr ''rolling''), (''currentPrize'', JStr ''p1'')] True ex_client))) ''status''
     = Some (JStr ''rolling'') \<and>
   get_prop (state (snd (updateState 10 10 10 ''r4nd0m'' NetOk NetFail
       [(''status'', JStr ''rolling''), (''currentPrize'', JStr ''p1'')] True ex_client))) ''currentPrize''
     = Some (JStr ''p1'') \<and>
   get_prop (state (snd (updateState 10 10 10 ''r4nd0m'' NetOk NetFail
       [(''status'', JStr ''rolling''), (''currentPrize'', JStr ''p1'')] True ex_client))) ''winners''
     = Some (JArr [])"
  using updateState_merges [of "[(''status'', JStr ''rolling''), (''currentPrize'', JStr ''p1'')]"
      10 10 10 "''r4nd0m''" NetOk NetFail True ex_client]
  by (simp add: ex_client_def default_state_def get_prop_def)

section \<open>Deduplication of dispatch (C3)\<close>

text \<open>
  Claim C3, as amended. A notification hands at most one event to the handlers: the
  maximum-timestamp event of the delivered collection, and only if that event is younger
  than 5000ms and its id differs from the last handled id; every handler of its type is
  then called once, and the id becomes the last handled id. So over any sequence of
  notifications the events dispatched are those let through by the freshness gate with
  every event dropped whose id is the one handled just before it: for a fresh subscriber
  their ids are the gated ids with adjacent repetitions removed. A redelivery of the id
  handled last triggers no further dispatch; nothing is promised for an event that is
  not the newest of its collection, nor for an id that returns after another one.
\<close>

theorem dispatch_deduplicates_last_id:
  "page (snd (notify now events c)) =
     (case onEvent_callback now events of
        None \<Rightarrow> page c
      | Some e \<Rightarrow> if Some (ev_id e) = lastEventId c then page c else call_all c (page c) e) \<and>
   lastEventId (snd (notify now events c)) =
     (case onEvent_callback now events of None \<Rightarrow> lastEventId c | Some e \<Rightarrow> Some (ev_id e)) \<and>
   (onEvent_callback now events = Some e \<longrightarrow>
      (\<exists>obj. events = Some obj \<and> e \<in> set (Object_values obj) \<and>
             (\<forall>x \<in> set (Object_values obj). timestamp x \<le> timestamp e)) \<and>
      now - timestamp e < 5000) \<and>
   (\<forall>obj. events = Some obj \<longrightarrow> Object_values obj \<noteq> [] \<longrightarrow>
      (\<exists>m \<in> set (Object_values obj).
          (\<forall>x \<in> set (Object_values obj). timestamp x \<le> timestamp m) \<and>
          onEvent_callback now events = (if now - timestamp m < 5000 then Some m else None))) \<and>
   page (run ns c) = foldl (call_all c) (page c) (dedup (lastEventId c) (selected ns)) \<and>
   map ev_id (dedup None (selected ns)) = remdups_adj (map ev_id (selected ns)) \<and>
   (\<forall>e \<in> set (selected ns).
      \<exists>n \<in> set ns. \<exists>obj. snd n = Some obj \<and> e \<in> set (Object_values obj) \<and>
        (\<forall>x \<in> set (Object_values obj). timestamp x \<le> timestamp e) \<and>
        onEvent_callback (fst n) (snd n) = Some e \<and> fst n - timestamp e < 5000)"
proof -
  have 1: "onEvent_callback now events = Some e \<longrightarrow>
      (\<exists>obj. events = Some obj \<and> e \<in> set (Object_values obj) \<and>
             (\<forall>x \<in> set (Object_values obj). timestamp x \<le> timestamp e)) \<and>
      now - timestamp e < 5000"
    using onEvent_callback_max [of now events e] by blast
  have 2: "\<forall>obj. events = Some obj \<longrightarrow> Object_values obj \<noteq> [] \<longrightarrow>
      (\<exists>m \<in> set (Object_values obj).
          (\<forall>x \<in> set (Object_values obj). timestamp x \<le> timestamp m) \<and>
          onEvent_callback now events = (if now - timestamp m < 5000 then Some m else None))"
    using onEvent_callback_nonempty [of events _ now] by blast
  have 3: "\<forall>e \<in> set (selected ns).
      \<exists>n \<in> set ns. \<exists>obj. snd n = Some obj \<and> e \<in> set (Object_values obj) \<and>
        (\<forall>x \<in> set (Object_values obj). timestamp x \<le> timestamp e) \<and>
        onEvent_callback (fst n) (snd n) = Some e \<and> fst n - timestamp e < 5000"
    using selected_newest_and_fresh [of _ ns] by blast
  from notify_page [of now events c] notify_last [of now events c] 1 2
    run_page [of ns c] dedup_ids [of "selected ns"] 3
  show ?thesis by (intro conjI) blast+
qed

theorem dispatch_deduplicates_last_id_witness:
  "onEvent_callback 2500 (Some [(''a'', ev_a), (''b'', ev_b)]) = Some ev_b \<and>
   Object_values [(''a'', ev_a), (''b'', ev_b)] \<noteq> [] \<and>
   ev_b \<in> set (Object_values [(''a'', ev_a), (''b'', ev_b)]) \<and>
   timestamp ev_a \<le> timestamp ev_b \<and>
   2500 - timestamp ev_b < 5000 \<and>
   page (snd (notify 2500 (Some [(''a'', ev_a), (''b'', ev_b)]) ex_subscriber)) = [''b''] \<and>
   lastEventId (snd (notify 2500 (Some [(''a'', ev_a), (''b'', ev_b)]) ex_subscriber))
     = Some ''b'' \<and>
   selected ex_redelivery = [ev_a, ev_a, ev_b] \<and>
   ev_a \<in> set (selected ex_redelivery) \<and>
   map ev_id (dedup None (selected ex_redelivery)) = [''a'', ''b''] \<and>
   page (run ex_redelivery ex_subscriber) = [''a'', ''b''] \<and>
   (\<exists>n \<in> set ex_redelivery.
      onEvent_callback (fst n) (snd n) = Some ev_a \<and> fst n - timestamp ev_a < 5000)"
proof -
  have cb: "onEvent_callback 2500 (Some [(''a'', ev_a), (''b'', ev_b)]) = Some ev_b"
    by (simp add: onEvent_callback_def latestEvent_def Object_values_def ev_a_def ev_b_def)
  have ne: "Object_values [(''a'', ev_a), (''b'', ev_b)] \<noteq> []"
    by (simp add: Object_values_def)
  have sel: "selected ex_redelivery = [ev_a, ev_a, ev_b]"
    by (simp add: selected_def ex_redelivery_def onEvent_callback_def latestEvent_def
          Object_values_def List.map_filter_def ev_a_def ev_b_def)
  have ids: "ev_id ev_a = ''a''" "ev_id ev_b = ''b''" by (simp_all add: ev_a_def ev_b_def)
  have dd: "dedup None [ev_a, ev_a, ev_b] = [ev_a, ev_b]" by (simp add: ids)
  have last: "lastEventId ex_subscriber = None" by (simp add: ex_subscriber_def)
  have pg: "foldl (call_all ex_subscriber) (page ex_subscriber) [ev_a, ev_b] = [''a'', ''b'']"
    by (simp add: call_all_def ex_subscriber_def ev_a_def ev_b_def record_id_def)
  have pb: "call_all ex_subscriber (page ex_subscriber) ev_b = [''b'']"
    by (simp add: call_all_def ex_subscriber_def ev_b_def record_id_def)
  note inst = dispatch_deduplicates_last_id
    [of 2500 "Some [(''a'', ev_a), (''b'', ev_b)]" ex_subscriber ev_b ex_redelivery]
  from inst have
    "page (snd (notify 2500 (Some [(''a'', ev_a), (''b'', ev_b)]) ex_subscriber)) =
       (case onEvent_callback 2500 (Some [(''a'', ev_a), (''b'', ev_b)]) of
          None \<Rightarrow> page ex_subscriber
        | Some e \<Rightarrow> if Some (ev_id e) = lastEventId ex_subscriber then page ex_subscriber
                    else call_all ex_subscriber (page ex_subscriber) e)"
    by blast
  then have n1: "page (snd (notify 2500 (Some [(''a'', ev_a), (''b'', ev_b)]) ex_subscriber))
                   = [''b'']"
    by (simp add: cb last pb)
  from inst have
    "lastEventId (snd (notify 2500 (Some [(''a'', ev_a), (''b'', ev_b)]) ex_subscriber)) =
       (case onEvent_callback 2500 (Some [(''a'', ev_a), (''b'', ev_b)]) of
          None \<Rightarrow> lastEventId ex_subscriber | Some e \<Rightarrow> Some (ev_id e))"
    by blast
  then have n2: "lastEventId (snd (notify 2500 (Some [(''a'', ev_a), (''b'', ev_b)]) ex_subscriber))
                   = Some ''b''"
    by (simp add: cb ids)
  from inst cb have
    "(\<exists>obj. Some [(''a'', ev_a), (''b'', ev_b)] = Some obj \<and> ev_b \<in> set (Object_values obj) \<and>
            (\<forall>x \<in> set (Object_values obj). timestamp x \<le> timestamp ev_b)) \<and>
     2500 - timestamp ev_b < 5000"
    by blast
  then have mx: "ev_b \<in> set (Object_values [(''a'', ev_a), (''b'', ev_b)])"
    "timestamp ev_a \<le> timestamp ev_b" "2500 - timestamp ev_b < 5000"
    by (auto simp: Object_values_def)
  from inst have
    "page (run ex_redelivery ex_subscriber) =
       foldl (call_all ex_subscriber) (page ex_subscriber)
         (dedup (lastEventId ex_subscriber) (selected ex_redelivery))"
    by blast
  then have 1: "page (run ex_redelivery ex_subscriber) = [''a'', ''b'']"
    by (simp only: sel last dd pg)
  from inst have
    "map ev_id (dedup None (selected ex_redelivery)) = remdups_adj (map ev_id (selected ex_redelivery))"
    by blast
  then have 2: "map ev_id (dedup None (selected ex_redelivery)) = [''a'', ''b'']"
    by (simp add: sel ids)
  from inst have
    "\<forall>e \<in> set (selected ex_redelivery).
       \<exists>n \<in> set ex_redelivery. \<exists>obj. snd n = Some obj \<and> e \<in> set (Object_values obj) \<and>
         (\<forall>x \<in> set (Object_values obj). timestamp x \<le> timestamp e) \<and>
         onEvent_callback (fst n) (snd n) = Some e \<and> fst n - timestamp e < 5000"
    by blast
  then have 3: "\<exists>n \<in> set ex_redelivery.
      onEvent_callback (fst n) (snd n) = Some ev_a \<and> fst n - timestamp ev_a < 5000"
    by (simp add: sel) blast
  have 0: "ev_a \<in> set (selected ex_redelivery)" by (simp add: sel)
  from cb ne mx n1 n2 sel 0 2 1 3 show ?thesis by blast
qed

text \<open>
  C3 as stated fails in both directions. An event that is within the freshness window
  but is not the newest of its collection is never dispatched; and an id that becomes
  the newest again after another id has been handled is dispatched a second time.
\<close>

theorem dispatch_not_once_per_id:
  "ev_a \<in> set (Object_values [(''a'', ev_a), (''b'', ev_b)]) \<and>
   2500 - timestamp ev_a < 5000 \<and>
   page (run [(2500, Some [(''a'', ev_a), (''b'', ev_b)])] ex_subscriber) = [''b''] \<and>
   page (run ex_recurrence ex_subscriber) = [''a'', ''b'', ''a'']"
proof -
  have s1: "selected [(2500, Some [(''a'', ev_a), (''b'', ev_b)])] = [ev_b]"
    by (simp add: selected_def onEvent_callback_def latestEvent_def
          Object_values_def List.map_filter_def ev_a_def ev_b_def)
  have s2: "selected ex_recurrence = [ev_a, ev_b, ev_a]"
    by (simp add: selected_def ex_recurrence_def onEvent_callback_def latestEvent_def
          Object_values_def List.map_filter_def ev_a_def ev_b_def)
  have last: "lastEventId ex_subscriber = None" by (simp add: ex_subscriber_def)
  have p1: "foldl (call_all ex_subscriber) (page ex_subscriber) (dedup None [ev_b]) = [''b'']"
    by (simp add: call_all_def ex_subscriber_def ev_b_def record_id_def)
  have p2: "foldl (call_all ex_subscriber) (page ex_subscriber) (dedup None [ev_a, ev_b, ev_a])
              = [''a'', ''b'', ''a'']"
    by (simp add: call_all_def ex_subscriber_def ev_a_def ev_b_def record_id_def)
  have "page (run [(2500, Some [(''a'', ev_a), (''b'', ev_b)])] ex_subscriber) = [''b'']"
    using run_page [of "[(2500, Some [(''a'', ev_a), (''b'', ev_b)])]" ex_subscriber] s1 last p1
    by simp
  moreover have "page (run ex_recurrence ex_subscriber) = [''a'', ''b'', ''a'']"
    using run_page [of ex_recurrence ex_subscriber] s2 last p2 by simp
  ultimately show ?thesis by (simp add: Object_values_def ev_a_def)
qed

section \<open>Stale events (C4)\<close>

text \<open>
  Claim C4. The callback of the events subscription passes on only the
  maximum-timestamp event of the collection, and only when \<open>now\<close> minus its timestamp
  is strictly below 5000ms. An event that is 5000ms old or older (6000ms, say) is
  therefore never passed on; when the callback passes nothing on, the notification
  leaves the client untouched, and otherwise the handlers are called with an event
  younger than 5000ms.
\<close>

theorem stale_event_never_dispatched:
  "(onEvent_callback now events = Some e \<longrightarrow>
      (\<exists>obj. events = Some obj \<and> e \<in> set (Object_values obj) \<and>
             (\<forall>x \<in> set (Object_values obj). timestamp x \<le> timestamp e)) \<and>
      now - timestamp e < 5000) \<and>
   (5000 \<le> now - timestamp x \<longrightarrow> onEvent_callback now events \<noteq> Some x) \<and>
   (onEvent_callback now events = None \<longrightarrow> notify now events c = (None, c)) \<and>
   (page (snd (notify now events c)) = page c \<or>
    (\<exists>e. now - timestamp e < 5000 \<and> page (snd (notify now events c)) = call_all c (page c) e))"
proof (intro conjI impI)
  assume a: "onEvent_callback now events = Some e"
  from onEvent_callback_Some [OF a] obtain obj where
    o: "events = Some obj" "latestEvent (Object_values obj) = Some e" by blast
  from latestEvent_Some [OF o(2)] o(1)
  show "\<exists>obj. events = Some obj \<and> e \<in> set (Object_values obj) \<and>
             (\<forall>x \<in> set (Object_values obj). timestamp x \<le> timestamp e)" by blast
  from onEvent_callback_Some [OF a] show "now - timestamp e < 5000" by blast
next
  assume "5000 \<le> now - timestamp x"
  then show "onEvent_callback now events \<noteq> Some x"
    using onEvent_callback_Some [of now events x] by auto
next
  assume "onEvent_callback now events = None"
  then show "notify now events c = (None, c)" by (simp add: notify_def)
next
  show "page (snd (notify now events c)) = page c \<or>
    (\<exists>e. now - timestamp e < 5000 \<and> page (snd (notify now events c)) = call_all c (page c) e)"
    using onEvent_callback_Some [of now events]
    by (cases "onEvent_callback now events") (auto simp: notify_page)
qed

theorem stale_event_never_dispatched_witness:
  "5000 \<le> 7000 - timestamp ev_a \<and>
   onEvent_callback 7000 (Some [(''a'', ev_a)]) = None \<and>
   onEvent_callback 7000 (Some [(''a'', ev_a)]) \<noteq> Some ev_a \<and>
   notify 7000 (Some [(''a'', ev_a)]) ex_subscriber = (None, ex_subscriber) \<and>
   onEvent_callback 2500 (Some [(''a'', ev_a), (''b'', ev_b)]) = Some ev_b \<and>
   ev_b \<in> set (Object_values [(''a'', ev_a), (''b'', ev_b)]) \<and>
   timestamp ev_a \<le> timestamp ev_b \<and>
   2500 - timestamp ev_b < 5000"
proof -
  have old: "onEvent_callback 7000 (Some [(''a'', ev_a)]) = None"
    by (simp add: onEvent_callback_def latestEvent_def Object_values_def ev_a_def)
  have new: "onEvent_callback 2500 (Some [(''a'', ev_a), (''b'', ev_b)]) = Some ev_b"
    by (simp add: onEvent_callback_def latestEvent_def Object_values_def ev_a_def ev_b_def)
  have age: "5000 \<le> 7000 - timestamp ev_a" by (simp add: ev_a_def)
  show ?thesis
    using stale_event_never_dispatched [of 7000 "Some [(''a'', ev_a)]" ev_a ev_a ex_subscriber]
      stale_event_never_dispatched [of 2500 "Some [(''a'', ev_a), (''b'', ev_b)]" ev_b ev_a
        ex_subscriber]
      old new age
    by (auto simp: Object_values_def)
qed

section \<open>Resync on reconnect (C5)\<close>




section \<open>The connectivity flags (C6)\<close>

text \<open>
  Claim C6, as amended. In every state reached after at least one connectivity signal,
  \<^verbatim>\<open>localMode\<close> is true exactly when \<^verbatim>\<open>isConnected\<close> is false, and in every reachable
  state the two flags are never both true. \<^verbatim>\<open>localMode\<close> becomes false at the
  reconnect signal itself, before the resync is started and whatever the outcome of its
  remote writes: the resync runs on the state in which \<^verbatim>\<open>isConnected\<close> is already true
  and \<^verbatim>\<open>localMode\<close> already false, so its guard, which stops it in every state that is
  disconnected or in local mode, lets it through, and a truthy cached employees document
  is pushed when its remote write succeeds.
\<close>

theorem flags_after_signal:
  "(signalled s \<longrightarrow> localMode s = (\<not> isConnected s)) \<and>
   (reachable s \<longrightarrow> \<not> (isConnected s \<and> localMode s)) \<and>
   isConnected (onConnectedValue True n1 n2 n3 s) = True \<and>
   localMode (onConnectedValue True n1 n2 n3 s) = False \<and>
   isConnected (onConnectedValue False n1 n2 n3 s) = False \<and>
   localMode (onConnectedValue False n1 n2 n3 s) = True \<and>
   onConnectedValue True n1 n2 n3 s =
     snd (syncLocalToCloud n1 n2 n3 (s\<lparr>isConnected := True, localMode := False\<rparr>)) \<and>
   (\<not> isConnected s \<or> localMode s \<longrightarrow> syncLocalToCloud n1 n2 n3 s = (Resolved (), s)) \<and>
   (truthy (loadFromLocal ''employees'' s) \<longrightarrow>
      db (onConnectedValue True NetOk n2 n3 s) ''employees'' = loadFromLocal ''employees'' s)"
proof -
  have order: "onConnectedValue True n1 n2 n3 s =
     snd (syncLocalToCloud n1 n2 n3 (s\<lparr>isConnected := True, localMode := False\<rparr>))"
    by (simp add: onConnectedValue_def Let_def)
  have guard: "\<not> isConnected s \<or> localMode s \<longrightarrow> syncLocalToCloud n1 n2 n3 s = (Resolved (), s)"
    by (auto simp: syncLocalToCloud_def)
  have pushed: "truthy (loadFromLocal ''employees'' s) \<longrightarrow>
      db (onConnectedValue True NetOk n2 n3 s) ''employees'' = loadFromLocal ''employees'' s"
    by (cases n2; cases n3)
       (auto simp: onConnectedValue_def syncLocalToCloud_def push_local_ok push_local_def
          db_set_def Let_def)
  have inv: "signalled s \<longrightarrow> localMode s = (\<not> isConnected s)"
    using signalled_flags [of s] by blast
  have never_both: "reachable s \<longrightarrow> \<not> (isConnected s \<and> localMode s)"
    using reachable_flags [of s] by blast
  have flags: "isConnected (onConnectedValue True n1 n2 n3 s) = True"
    "localMode (onConnectedValue True n1 n2 n3 s) = False"
    "isConnected (onConnectedValue False n1 n2 n3 s) = False"
    "localMode (onConnectedValue False n1 n2 n3 s) = True"
    by (simp_all add: onConnectedValue_flags)
  from inv never_both flags order guard pushed show ?thesis by blast
qed

theorem flags_after_signal_witness:
  "signalled ex_offline_edit \<and> reachable ex_offline_edit \<and>
   localMode ex_offline_edit \<and> \<not> isConnected ex_offline_edit \<and>
   syncLocalToCloud NetOk NetOk NetOk ex_offline_edit = (Resolved (), ex_offline_edit) \<and>
   truthy (loadFromLocal ''employees'' ex_offline_edit) \<and>
   db ex_offline_edit ''employees'' = JNull \<and>
   db (onConnectedValue True NetOk NetOk NetOk ex_offline_edit) ''employees''
     = JArr [JStr ''Ann'']"
proof -
  have r: "reachable ex_new" unfolding ex_new_def by (rule r_new)
  have sg: "signalled ex_offline_edit"
    unfolding ex_offline_edit_def by (rule s_set [OF s_signal [OF r]])
  have rc: "reachable ex_offline_edit"
    unfolding ex_offline_edit_def by (rule r_set [OF r_signal [OF r]])
  have off: "onConnectedValue False NetOk NetOk NetOk ex_new =
               \<lparr>isConnected = False, localMode = True, localStorage = Map.empty,
                setItem_throws = never_throws, db = empty_remote\<rparr>"
    by (simp add: onConnectedValue_def ex_new_def constructor_def)
  have ld: "loadFromLocal ''employees'' ex_offline_edit = JArr [JStr ''Ann'']"
    by (simp add: ex_offline_edit_def off setData_def Let_def loadFromLocal_saveToLocal_key)
  have d0: "db ex_offline_edit ''employees'' = JNull"
    by (simp add: ex_offline_edit_def off setData_def Let_def empty_remote_def)
  note inst = flags_after_signal [of ex_offline_edit NetOk NetOk NetOk]
  from inst sg have f: "localMode ex_offline_edit = (\<not> isConnected ex_offline_edit)" by blast
  have lm: "localMode ex_offline_edit"
    by (simp add: ex_offline_edit_def onConnectedValue_flags)
  with f have nc: "\<not> isConnected ex_offline_edit" by simp
  from inst lm have g: "syncLocalToCloud NetOk NetOk NetOk ex_offline_edit
                          = (Resolved (), ex_offline_edit)" by blast
  have t: "truthy (loadFromLocal ''employees'' ex_offline_edit)" by (simp add: ld)
  from inst t have "db (onConnectedValue True NetOk NetOk NetOk ex_offline_edit) ''employees''
                      = loadFromLocal ''employees'' ex_offline_edit" by blast
  with ld have d1: "db (onConnectedValue True NetOk NetOk NetOk ex_offline_edit) ''employees''
                      = JArr [JStr ''Ann'']" by simp
  from sg rc lm nc g t d0 d1 show ?thesis by blast
qed

text \<open>
  C6 as stated fails twice. A freshly constructed core is disconnected with
  \<^verbatim>\<open>localMode\<close> false; and a reconnect clears \<^verbatim>\<open>localMode\<close> although the resync
  push was rejected and the remote store still lacks the offline edit.
\<close>

theorem flags_break_invariant:
  "reachable ex_new \<and> \<not> isConnected ex_new \<and> \<not> localMode ex_new \<and>
   reachable ex_offline_edit \<and> localMode ex_offline_edit \<and>
   loadFromLocal ''employees'' ex_offline_edit = JArr [JStr ''Ann''] \<and>
   isConnected (onConnectedValue True NetFail NetFail NetFail ex_offline_edit) \<and>
   \<not> localMode (onConnectedValue True NetFail NetFail NetFail ex_offline_edit) \<and>
   db (onConnectedValue True NetFail NetFail NetFail ex_offline_edit) ''employees'' = JNull"
proof -
  have r: "reachable ex_new" unfolding ex_new_def by (rule r_new)
  have re: "reachable ex_offline_edit"
    unfolding ex_offline_edit_def by (rule r_set [OF r_signal [OF r]])
  have off: "onConnectedValue False NetOk NetOk NetOk ex_new =
               \<lparr>isConnected = False, localMode = True, localStorage = Map.empty,
                setItem_throws = never_throws, db = empty_remote\<rparr>"
    by (simp add: onConnectedValue_def ex_new_def constructor_def)
  have ld: "loadFromLocal ''employees'' ex_offline_edit = JArr [JStr ''Ann'']"
    by (simp add: ex_offline_edit_def off setData_def Let_def loadFromLocal_saveToLocal_key)
  have d0: "db ex_offline_edit ''employees'' = JNull"
    by (simp add: ex_offline_edit_def off setData_def Let_def empty_remote_def)
  have dbv: "db (onConnectedValue True NetFail NetFail NetFail ex_offline_edit) ''employees'' = JNull"
    by (simp add: onConnectedValue_def syncLocalToCloud_def push_local_def db_set_def Let_def
          ld d0)
  have f1: "\<not> isConnected ex_new" "\<not> localMode ex_new"
    by (simp_all add: ex_new_def constructor_def)
  have f2: "localMode ex_offline_edit"
    by (simp add: ex_offline_edit_def onConnectedValue_flags)
  have f3: "isConnected (onConnectedValue True NetFail NetFail NetFail ex_offline_edit)"
    "\<not> localMode (onConnectedValue True NetFail NetFail NetFail ex_offline_edit)"
    by (simp_all add: onConnectedValue_flags)
  from r re ld dbv f1 f2 f3 show ?thesis by blast
qed

section \<open>Handler isolation (C7)\<close>

text \<open>
  Claim C7. When an event is dispatched to the handlers registered for its type, every
  one of them is called with that event, in registration order, whether or not an earlier
  one threw; each thrown error is caught and logged, and \<^verbatim>\<open>handleIncomingEvent\<close> itself
  never throws.
\<close>

theorem handler_errors_isolated:
  "Some (ev_id e) \<noteq> lastEventId c \<Longrightarrow> eventHandlers c (ev_type e) = Some hs \<Longrightarrow>
   fst (handleIncomingEvent e c) = None \<and>
   page (snd (handleIncomingEvent e c)) = foldl (\<lambda>w h. snd (h (ev_data e) e w)) (page c) hs \<and>
   (page (snd (handleIncomingEvent e c)), console_error (snd (handleIncomingEvent e c)))
     = foldl (\<lambda>wl h. log_call (h (ev_data e) e) wl) (page c, console_error c) hs"
  using forEach_try_console [of "\<lambda>h. h (ev_data e) e" hs "c\<lparr>lastEventId := Some (ev_id e)\<rparr>"]
    forEach_try_page [of "\<lambda>h. h (ev_data e) e" hs "c\<lparr>lastEventId := Some (ev_id e)\<rparr>"]
  by (simp add: handleIncomingEvent_def Let_def forEach_try_fst)

theorem handler_errors_isolated_witness:
  "Some (ev_id ev_a) \<noteq> lastEventId ex_client \<and>
   eventHandlers ex_client (ev_type ev_a) = Some [record_id, throw_after_record, record_id] \<and>
   fst (handleIncomingEvent ev_a ex_client) = None \<and>
   page (snd (handleIncomingEvent ev_a ex_client)) = [''a'', ''thrower'', ''a''] \<and>
   console_error (snd (handleIncomingEvent ev_a ex_client)) = [''boom'']"
proof -
  have h1: "Some (ev_id ev_a) \<noteq> lastEventId ex_client" by (simp add: ex_client_def)
  have h2: "eventHandlers ex_client (ev_type ev_a)
              = Some [record_id, throw_after_record, record_id]"
    by (simp add: ex_client_def ev_a_def)
  have f: "foldl (\<lambda>wl h. log_call (h (ev_data ev_a) ev_a) wl)
             (page ex_client, console_error ex_client)
             [record_id, throw_after_record, record_id]
           = ([''a'', ''thrower'', ''a''], [''boom''])"
    by (simp add: log_call_def record_id_def throw_after_record_def ex_client_def ev_a_def)
  note inst = handler_errors_isolated [OF h1 h2]
  from inst have n: "fst (handleIncomingEvent ev_a ex_client) = None" by blast
  from inst have
    "(page (snd (handleIncomingEvent ev_a ex_client)),
      console_error (snd (handleIncomingEvent ev_a ex_client)))
     = foldl (\<lambda>wl h. log_call (h (ev_data ev_a) ev_a) wl)
         (page ex_client, console_error ex_client) [record_id, throw_after_record, record_id]"
    by blast
  then have
    "(page (snd (handleIncomingEvent ev_a ex_client)),
      console_error (snd (handleIncomingEvent ev_a ex_client)))
     = ([''a'', ''thrower'', ''a''], [''boom''])"
    by (simp only: f)
  then have pc: "page (snd (handleIncomingEvent ev_a ex_client)) = [''a'', ''thrower'', ''a'']"
    "console_error (snd (handleIncomingEvent ev_a ex_client)) = [''boom'']"
    by simp_all
  from h1 h2 n pc show ?thesis by blast
qed

section \<open>The result of a broadcast (C8)\<close>

text \<open>
  Claim C8. \<^verbatim>\<open>broadcastEvent\<close> resolves to \<^verbatim>\<open>true\<close> whenever \<^verbatim>\<open>sendEvent\<close>
  resolves, whatever boolean it resolves to. In particular, when the client is connected
  and the remote write is rejected, \<^verbatim>\<open>setData\<close> and with it \<^verbatim>\<open>sendEvent\<close> resolve to
  \<^verbatim>\<open>false\<close>, and \<^verbatim>\<open>broadcastEvent\<close> still resolves to \<^verbatim>\<open>true\<close>.
\<close>

theorem broadcastEvent_ignores_setData_result:
  "(\<forall>b s. sendEvent now now_id rnd n t d (firebaseCore c) = (Resolved b, s) \<longrightarrow>
      broadcastEvent now now_id rnd n t d c = (Resolved True, c\<lparr>firebaseCore := s\<rparr>)) \<and>
   fst (broadcastEvent now now_id rnd n t d c) = Resolved True \<and>
   (isConnected (firebaseCore c) \<and> \<not> localMode (firebaseCore c) \<longrightarrow>
      fst (setData NetFail (''events/'' @ generateEventId now_id rnd)
             (event_json \<lparr>ev_type = t, ev_data = d, timestamp = now,
                           ev_id = generateEventId now_id rnd\<rparr>) (firebaseCore c))
        = Resolved False \<and>
      fst (sendEvent now now_id rnd NetFail t d (firebaseCore c)) = Resolved False \<and>
      fst (broadcastEvent now now_id rnd NetFail t d c) = Resolved True)"
proof -
  have all: "fst (broadcastEvent now now_id rnd m t d c) = Resolved True" for m
  proof -
    obtain r s where rs: "sendEvent now now_id rnd m t d (firebaseCore c) = (r, s)"
      by (cases "sendEvent now now_id rnd m t d (firebaseCore c)")
    from sendEvent_resolves [of now now_id rnd m t d "firebaseCore c"] rs
    obtain b where "r = Resolved b" by auto
    with rs show ?thesis by (simp add: broadcastEvent_def)
  qed
  have fail: "isConnected (firebaseCore c) \<and> \<not> localMode (firebaseCore c) \<longrightarrow>
      fst (sendEvent now now_id rnd NetFail t d (firebaseCore c)) = Resolved False"
    by (simp add: sendEvent_def setData_def db_set_def Let_def)
  show ?thesis using all fail by (simp add: broadcastEvent_def sendEvent_def Let_def)
qed

theorem broadcastEvent_ignores_setData_result_witness:
  "isConnected (firebaseCore ex_client) \<and> \<not> localMode (firebaseCore ex_client) \<and>
   fst (sendEvent 1000 1001 ''k3j9x0abc'' NetFail ''START_LOTTERY'' JNull (firebaseCore ex_client))
     = Resolved False \<and>
   fst (broadcastEvent 1000 1001 ''k3j9x0abc'' NetFail ''START_LOTTERY'' JNull ex_client)
     = Resolved True"
  using broadcastEvent_ignores_setData_result
    [of 1000 1001 "''k3j9x0abc''" NetFail "''START_LOTTERY''" JNull ex_client]
  by (simp add: ex_client_def ex_online_def)

section \<open>A null remote read (C9)\<close>

text \<open>
  Claim C9. When \<^verbatim>\<open>getData(p)\<close> is called while connected and the remote read succeeds
  with \<^verbatim>\<open>null\<close>, the result is the cached value at \<open>p\<close> (\<^verbatim>\<open>null\<close> when the cache
  has no entry), and the core, its cache included, is left as it was.
\<close>

theorem getData_remote_null_reads_cache:
  "isConnected s \<Longrightarrow> \<not> localMode s \<Longrightarrow> db s p = JNull \<Longrightarrow>
   getData NetOk p s = (Resolved (loadFromLocal p s), s) \<and>
   (localStorage s (local_key p) = None \<longrightarrow> fst (getData NetOk p s) = Resolved JNull) \<and>
   (\<forall>v. localStorage s (local_key p) = Some (JSON_stringify v) \<longrightarrow>
        fst (getData NetOk p s) = Resolved v)"
  by (simp add: getData_def db_once_def loadFromLocal_def JSON_stringify_def)

theorem getData_remote_null_reads_cache_witness:
  "isConnected ex_cached_winners \<and> \<not> localMode ex_cached_winners \<and>
   db ex_cached_winners ''winners'' = JNull \<and>
   localStorage ex_cached_winners (local_key ''winners'')
     = Some (JSON_stringify (JArr [JStr ''Ann''])) \<and>
   getData NetOk ''winners'' ex_cached_winners
     = (Resolved (JArr [JStr ''Ann'']), ex_cached_winners)"
proof -
  have c: "isConnected ex_cached_winners" "\<not> localMode ex_cached_winners"
    "db ex_cached_winners ''winners'' = JNull"
    by (simp_all add: ex_cached_winners_def ex_online_def empty_remote_def)
  have l: "localStorage ex_cached_winners (local_key ''winners'')
             = Some (JSON_stringify (JArr [JStr ''Ann'']))"
    by (simp add: ex_cached_winners_def saveToLocal_lands ex_online_def)
  have v: "loadFromLocal ''winners'' ex_cached_winners = JArr [JStr ''Ann'']"
    by (simp add: ex_cached_winners_def loadFromLocal_saveToLocal_key ex_online_def)
  from getData_remote_null_reads_cache [OF c] c l v show ?thesis by simp
qed

section \<open>Colliding cache keys (C10)\<close>

text \<open>
  Claim C10. The translation of a path into a cache key is a function, and it is not
  injective: the distinct paths \<^verbatim>\<open>events/x\<close> and \<^verbatim>\<open>events_x\<close> have the same key, so
  that a value written under the first while disconnected (the cache write succeeding)
  is what a disconnected read of the second returns.
\<close>

theorem local_key_collision:
  "''events/x'' \<noteq> ''events_x'' \<and>
   local_key ''events/x'' = local_key ''events_x'' \<and>
   local_key ''events/x'' = ''lottery_events_x'' \<and>
   (\<forall>s v n n'. \<not> isConnected s \<longrightarrow>
      \<not> setItem_throws s (localStorage s) (local_key ''events/x'') (JSON_stringify v) \<longrightarrow>
      fst (getData n' ''events_x'' (snd (setData n ''events/x'' v s))) = Resolved v)"
proof -
  have k: "local_key ''events_x'' = local_key ''events/x''"
    by (simp add: local_key_def replace_slash_def)
  have "fst (getData n' ''events_x'' (snd (setData n ''events/x'' v s))) = Resolved v"
    if "\<not> isConnected s"
      and "\<not> setItem_throws s (localStorage s) (local_key ''events/x'') (JSON_stringify v)"
    for s v n n'
    using that loadFromLocal_saveToLocal_key [OF k that(2)]
    by (simp add: setData_def getData_def Let_def)
  then show ?thesis by (simp add: local_key_def replace_slash_def)
qed

theorem local_key_collision_witness:
  "\<not> isConnected ex_offline \<and>
   \<not> setItem_throws ex_offline (localStorage ex_offline) (local_key ''events/x'')
       (JSON_stringify (JStr ''payload'')) \<and>
   fst (getData NetOk ''events_x''
          (snd (setData NetOk ''events/x'' (JStr ''payload'') ex_offline)))
     = Resolved (JStr ''payload'')"
proof -
  have h1: "\<not> isConnected ex_offline" by (simp add: ex_offline_def)
  have h2: "\<not> setItem_throws ex_offline (localStorage ex_offline) (local_key ''events/x'')
              (JSON_stringify (JStr ''payload''))"
    by (simp add: ex_offline_def)
  from local_key_collision h1 h2 show ?thesis by blast
qed

end
